theory Spec2Isabelle
  imports Main "HOL-Library.AList" "HOL-Library.Sublist"
begin

section \<open>The contact directory of \<^verbatim>\<open>cli_bot_classes.py\<close> and \<^verbatim>\<open>cli_bot.py\<close>\<close>

text \<open>
  The Python classes are embedded as HOL functions. A Python \<^verbatim>\<open>str\<close> is a \<^typ>\<open>string\<close>,
  each \<^typ>\<open>char\<close> standing for one code point below 256; a Python \<^verbatim>\<open>int\<close> is an
  \<^typ>\<open>int\<close>. An exception is a value of type \<open>error\<close>, and a function that can raise
  returns \<open>error + 'a\<close> with \<open>Inl\<close> for the exception. A \<^verbatim>\<open>ValueError\<close> carries its
  message, since the source tells its failures apart by message only. Text written by
  \<^verbatim>\<open>print\<close> is returned as a list of lines.
\<close>

datatype error =
    ValueError string
  | AttributeError
  | OverflowError
  | TypeError

subsection \<open>\<^verbatim>\<open>datetime.date\<close>\<close>

text \<open>
  The part of the standard library's \<^verbatim>\<open>date\<close> that the source uses: the constructor with
  its range checks, \<^verbatim>\<open>toordinal\<close>, \<^verbatim>\<open>weekday\<close>, subtraction of dates, addition of a
  \<^verbatim>\<open>timedelta\<close> of whole days and \<^verbatim>\<open>str\<close>. The arithmetic follows the library's
  reference implementation (\<^verbatim>\<open>_ymd2ord\<close>, \<^verbatim>\<open>_ord2ymd\<close>).
\<close>

record date =
  year :: int
  month :: int
  day :: int

definition is_leap :: "int \<Rightarrow> bool" where
  "is_leap y = (y mod 4 = 0 \<and> (y mod 100 \<noteq> 0 \<or> y mod 400 = 0))"

text \<open>The library's tables are indexed by the month, from 1: index 0 holds a placeholder.\<close>

definition DAYS_IN_MONTH :: "int list" where
  "DAYS_IN_MONTH = [- 1, 31, 28, 31, 30, 31, 30, 31, 31, 30, 31, 30, 31]"

definition DAYS_BEFORE_MONTH :: "int list" where
  "DAYS_BEFORE_MONTH = [- 1, 0, 31, 59, 90, 120, 151, 181, 212, 243, 273, 304, 334]"

definition days_in_month :: "int \<Rightarrow> int \<Rightarrow> int" where
  "days_in_month y m = (if m = 2 \<and> is_leap y then 29 else DAYS_IN_MONTH ! nat m)"

definition days_before_year :: "int \<Rightarrow> int" where
  "days_before_year y = (let y1 = y - 1 in y1 * 365 + y1 div 4 - y1 div 100 + y1 div 400)"

definition days_before_month :: "int \<Rightarrow> int \<Rightarrow> int" where
  "days_before_month y m =
     DAYS_BEFORE_MONTH ! nat m + (if m > 2 \<and> is_leap y then 1 else 0)"

definition MAXORDINAL :: int where
  "MAXORDINAL = 3652059"

text \<open>The C constructor reads its three arguments as C \<^verbatim>\<open>int\<close>s before it checks the
  ranges: an argument outside 32 bits raises \<^verbatim>\<open>OverflowError\<close>, not \<^verbatim>\<open>ValueError\<close>. The
  message for the year leaves out the number that the library prints in it.\<close>

definition fits_c_int :: "int \<Rightarrow> bool" where
  "fits_c_int n = (- 2147483648 \<le> n \<and> n \<le> 2147483647)"

definition valid_date :: "date \<Rightarrow> bool" where
  "valid_date d =
     (1 \<le> year d \<and> year d \<le> 9999 \<and> 1 \<le> month d \<and> month d \<le> 12 \<and>
      1 \<le> day d \<and> day d \<le> days_in_month (year d) (month d))"

definition mk_date :: "int \<Rightarrow> int \<Rightarrow> int \<Rightarrow> error + date" where
  "mk_date y m d =
     (if \<not> (fits_c_int y \<and> fits_c_int m \<and> fits_c_int d) then Inl OverflowError
      else if y < 1 \<or> y > 9999 then Inl (ValueError ''year is out of range'')
      else if m < 1 \<or> m > 12 then Inl (ValueError ''month must be in 1..12'')
      else if d < 1 \<or> d > days_in_month y m
        then Inl (ValueError ''day is out of range for month'')
      else Inr \<lparr>year = y, month = m, day = d\<rparr>)"

definition toordinal :: "date \<Rightarrow> int" where
  "toordinal d = days_before_year (year d) + days_before_month (year d) (month d) + day d"

definition weekday :: "date \<Rightarrow> int" where
  "weekday d = (toordinal d + 6) mod 7"

definition fromordinal :: "int \<Rightarrow> date" where
  "fromordinal n =
     (let n0 = n - 1;
          n400 = n0 div 146097; r400 = n0 mod 146097;
          n100 = r400 div 36524; r100 = r400 mod 36524;
          n4 = r100 div 1461; r4 = r100 mod 1461;
          n1 = r4 div 365; r1 = r4 mod 365;
          y = n400 * 400 + 1 + n100 * 100 + n4 * 4 + n1
      in if n1 = 4 \<or> n100 = 4 then \<lparr>year = y - 1, month = 12, day = 31\<rparr>
         else
           let leapyear = (n1 = 3 \<and> (n4 \<noteq> 24 \<or> n100 = 3));
               m = (r1 + 50) div 32;
               preceding = DAYS_BEFORE_MONTH ! nat m + (if m > 2 \<and> leapyear then 1 else 0)
           in if preceding > r1
              then
                let m' = m - 1;
                    preceding' = preceding -
                      (DAYS_IN_MONTH ! nat m' + (if m' = 2 \<and> leapyear then 1 else 0))
                in \<lparr>year = y, month = m', day = r1 - preceding' + 1\<rparr>
              else \<lparr>year = y, month = m, day = r1 - preceding + 1\<rparr>)"

text \<open>\<^verbatim>\<open>date + timedelta(days=n)\<close>.\<close>

definition date_add_days :: "date \<Rightarrow> int \<Rightarrow> error + date" where
  "date_add_days d n =
     (let ordinal = toordinal d + n
      in if 0 < ordinal \<and> ordinal \<le> MAXORDINAL then Inr (fromordinal ordinal)
         else Inl OverflowError)"

text \<open>\<^verbatim>\<open>(a - b).days\<close>.\<close>

definition date_sub_days :: "date \<Rightarrow> date \<Rightarrow> int" where
  "date_sub_days a b = toordinal a - toordinal b"

definition digit_char :: "int \<Rightarrow> char" where
  "digit_char n = char_of (48 + nat n)"

text \<open>\<^verbatim>\<open>str(date)\<close> is \<^verbatim>\<open>"%04d-%02d-%02d"\<close>.\<close>

definition date_str :: "date \<Rightarrow> string" where
  "date_str d =
     [digit_char (year d div 1000 mod 10), digit_char (year d div 100 mod 10),
      digit_char (year d div 10 mod 10), digit_char (year d mod 10), CHR ''-'',
      digit_char (month d div 10 mod 10), digit_char (month d mod 10), CHR ''-'',
      digit_char (day d div 10 mod 10), digit_char (day d mod 10)]"

subsection \<open>Strings and \<^verbatim>\<open>int(str)\<close>\<close>

definition is_digit :: "char \<Rightarrow> bool" where
  "is_digit c = (let n = (of_char c :: nat) in 48 \<le> n \<and> n \<le> 57)"

text \<open>The white space that \<^verbatim>\<open>int\<close> strips, among the code points below 256: tab, line feed,
  vertical tab, form feed, carriage return and space, and the two non-ASCII spaces
  \<open>0x85\<close> and \<open>0xA0\<close>. The separators \<open>0x1C\<close> to \<open>0x1F\<close> are not stripped.\<close>

definition is_space :: "char \<Rightarrow> bool" where
  "is_space c =
     (let n = (of_char c :: nat)
      in (9 \<le> n \<and> n \<le> 13) \<or> n = 32 \<or> n = 133 \<or> n = 160)"

definition strip :: "string \<Rightarrow> string" where
  "strip s = rev (dropWhile is_space (rev (dropWhile is_space s)))"

fun no_double_underscore :: "string \<Rightarrow> bool" where
  "no_double_underscore (a # b # cs) =
     (\<not> (a = CHR ''_'' \<and> b = CHR ''_'') \<and> no_double_underscore (b # cs))"
| "no_double_underscore cs = True"

definition digits_value :: "string \<Rightarrow> int" where
  "digits_value ds = foldl (\<lambda>acc c. acc * 10 + (int (of_char c) - 48)) 0 ds"

text \<open>
  \<^verbatim>\<open>int(s)\<close> for a string, base 10: white space around the literal is dropped, one sign
  is allowed, the digits may be grouped by single underscores, leading zeros are allowed,
  and a literal of more than 4300 digits is refused (\<^verbatim>\<open>sys.int_max_str_digits\<close>). Every
  failure is a \<^verbatim>\<open>ValueError\<close>.
\<close>

definition py_int :: "string \<Rightarrow> error + int" where
  "py_int s =
     (let t = strip s;
          neg = (t \<noteq> [] \<and> hd t = CHR ''-'');
          body = (if t \<noteq> [] \<and> (hd t = CHR ''-'' \<or> hd t = CHR ''+'') then tl t else t);
          ds = filter is_digit body
      in if body = [] \<or> hd body = CHR ''_'' \<or> last body = CHR ''_''
            \<or> \<not> list_all (\<lambda>c. is_digit c \<or> c = CHR ''_'') body
            \<or> \<not> no_double_underscore body
         then Inl (ValueError ''invalid literal for int() with base 10'')
         else if length ds > 4300
         then Inl (ValueError ''Exceeds the limit (4300 digits) for integer string conversion'')
         else Inr ((if neg then - 1 else 1) * digits_value ds))"

text \<open>\<^verbatim>\<open>s.split(sep)\<close> for a separator of one character.\<close>

fun split_on :: "char \<Rightarrow> string \<Rightarrow> string list" where
  "split_on sep [] = [[]]"
| "split_on sep (c # cs) =
     (if c = sep then [] # split_on sep cs
      else (case split_on sep cs of w # ws \<Rightarrow> (c # w) # ws | [] \<Rightarrow> [[c]]))"

text \<open>\<^verbatim>\<open>sep.join(xs)\<close>.\<close>

fun join :: "string \<Rightarrow> string list \<Rightarrow> string" where
  "join sep [] = []"
| "join sep [x] = x"
| "join sep (x # y # zs) = x @ sep @ join sep (y # zs)"

text \<open>\<^verbatim>\<open>str.lower\<close> on the code points below 256: the capitals A to Z, and \<open>0xC0\<close> to
  \<open>0xDE\<close> without the multiplication sign \<open>0xD7\<close>, move up by 32.\<close>

definition lower_char :: "char \<Rightarrow> char" where
  "lower_char c =
     (let n = (of_char c :: nat)
      in if (65 \<le> n \<and> n \<le> 90) \<or> (192 \<le> n \<and> n \<le> 222 \<and> n \<noteq> 215) then char_of (n + 32) else c)"

definition lower :: "string \<Rightarrow> string" where
  "lower s = map lower_char s"

text \<open>\<^verbatim>\<open>p in s\<close> for strings: \<open>p\<close> occurs in \<open>s\<close> as a contiguous run.\<close>

fun str_contains :: "string \<Rightarrow> string \<Rightarrow> bool" where
  "str_contains [] p = (p = [])"
| "str_contains (c # cs) p = (take (length p) (c # cs) = p \<or> str_contains cs p)"

subsection \<open>\<^verbatim>\<open>Birthday\<close>\<close>

text \<open>
  \<^verbatim>\<open>Birthday.__init__\<close>; the result is the \<^verbatim>\<open>value\<close> of the new object. The unpacking
  \<^verbatim>\<open>day, month, year = map(int, value.split('.'))\<close> raises \<^verbatim>\<open>ValueError\<close> when a part is
  no integer literal and when there are not exactly three parts; the handler replaces
  every \<^verbatim>\<open>ValueError\<close> by one message and lets any other exception pass.
\<close>

definition Birthday :: "string \<Rightarrow> error + date" where
  "Birthday value =
     (let invalid = Inl (ValueError ''Invalid date format. Use DD.MM.YYYY'')
      in case split_on CHR ''.'' value of
           [a, b, c] \<Rightarrow>
             (case py_int a of Inl e \<Rightarrow> invalid | Inr d \<Rightarrow>
             (case py_int b of Inl e \<Rightarrow> invalid | Inr m \<Rightarrow>
             (case py_int c of Inl e \<Rightarrow> invalid | Inr y \<Rightarrow>
             (case mk_date y m d of
                Inl (ValueError msg) \<Rightarrow> invalid
              | Inl e \<Rightarrow> Inl e
              | Inr dt \<Rightarrow> Inr dt))))
         | _ \<Rightarrow> invalid)"

subsection \<open>\<^verbatim>\<open>Record\<close>\<close>

text \<open>
  A \<^verbatim>\<open>Phone\<close> object is modelled by its \<^verbatim>\<open>value\<close>, a \<^verbatim>\<open>Birthday\<close> object by its date, the
  \<^verbatim>\<open>Name\<close> by its string. The module \<^verbatim>\<open>normalize_phone\<close> is not among the sources, so
  every method that calls \<^verbatim>\<open>normalize_phone\<close> takes it as the parameter \<open>norm\<close>.
\<close>

record Record =
  name :: string
  phones :: "string list"
  birthday :: "date option"

type_synonym normalizer = "string \<Rightarrow> error + string"

text \<open>\<^verbatim>\<open>Record.add_phone\<close>: the membership test compares the argument as it was passed
  with the stored values; \<^verbatim>\<open>Phone(phone)\<close> normalizes it afterwards.\<close>

definition add_phone :: "normalizer \<Rightarrow> string \<Rightarrow> Record \<Rightarrow> error + Record" where
  "add_phone norm phone r =
     (if phone \<in> set (phones r)
      then Inl (ValueError (''Phone '' @ phone @ '' already exists''))
      else (case norm phone of
              Inl e \<Rightarrow> Inl e
            | Inr v \<Rightarrow> Inr (r\<lparr>phones := phones r @ [v]\<rparr>)))"

text \<open>The loop of \<^verbatim>\<open>Record.edit_phone\<close> over the stored phones: the new list and the
  returned message, \<open>None\<close> when the loop ends without a match.\<close>

fun edit_phone_loop ::
  "normalizer \<Rightarrow> string \<Rightarrow> string \<Rightarrow> string list \<Rightarrow> error + (string list \<times> string option)"
where
  "edit_phone_loop norm phone new_phone [] = Inr ([], None)"
| "edit_phone_loop norm phone new_phone (p # ps) =
     (case norm phone of
        Inl e \<Rightarrow> Inl e
      | Inr v \<Rightarrow>
          if p = v
          then (case norm new_phone of
                  Inl e \<Rightarrow> Inl e
                | Inr w \<Rightarrow>
                    Inr (w # ps, Some (''Phone '' @ phone @ '' edited to '' @ new_phone)))
          else (case edit_phone_loop norm phone new_phone ps of
                  Inl e \<Rightarrow> Inl e
                | Inr (ps', msg) \<Rightarrow> Inr (p # ps', msg)))"

definition edit_phone ::
  "normalizer \<Rightarrow> string \<Rightarrow> string \<Rightarrow> Record \<Rightarrow> error + (Record \<times> string option)"
where
  "edit_phone norm phone new_phone r =
     (case edit_phone_loop norm phone new_phone (phones r) of
        Inl e \<Rightarrow> Inl e
      | Inr (ps', msg) \<Rightarrow> Inr (r\<lparr>phones := ps'\<rparr>, msg))"

text \<open>The loop of \<^verbatim>\<open>Record.search_phone\<close>: the first stored phone equal to the normalized
  argument, or \<open>None\<close>.\<close>

fun search_phone_loop :: "normalizer \<Rightarrow> string \<Rightarrow> string list \<Rightarrow> error + string option" where
  "search_phone_loop norm phone [] = Inr None"
| "search_phone_loop norm phone (p # ps) =
     (case norm phone of
        Inl e \<Rightarrow> Inl e
      | Inr v \<Rightarrow> if p = v then Inr (Some p) else search_phone_loop norm phone ps)"

definition search_phone :: "normalizer \<Rightarrow> string \<Rightarrow> Record \<Rightarrow> error + string option" where
  "search_phone norm phone r = search_phone_loop norm phone (phones r)"

text \<open>\<^verbatim>\<open>Record.add_birthday\<close>: the record after the call and the lines printed. The handler
  catches \<^verbatim>\<open>ValueError\<close> only and prints its message.\<close>

definition add_birthday :: "string \<Rightarrow> Record \<Rightarrow> error + (Record \<times> string list)" where
  "add_birthday value r =
     (case Birthday value of
        Inr d \<Rightarrow> Inr (r\<lparr>birthday := Some d\<rparr>, [])
      | Inl (ValueError msg) \<Rightarrow> Inr (r, [msg])
      | Inl e \<Rightarrow> Inl e)"

subsection \<open>\<^verbatim>\<open>AddressBook\<close>\<close>

text \<open>
  The \<^verbatim>\<open>data\<close> dictionary of the \<^verbatim>\<open>UserDict\<close>, as an association list in insertion order:
  assigning to a key that is present keeps its place, a new key goes to the end. The type
  of the values is a parameter: the methods below work on \<^verbatim>\<open>Record\<close> objects.
\<close>

type_synonym 'v AddressBook = "(string \<times> 'v) list"

definition add_record :: "Record \<Rightarrow> Record AddressBook \<Rightarrow> Record AddressBook" where
  "add_record record book = AList.update (name record) record book"

definition find :: "'v AddressBook \<Rightarrow> string \<Rightarrow> 'v option" where
  "find book key = map_of book key"

text \<open>
  The body of the loop of \<^verbatim>\<open>AddressBook.get_upcoming_birthdays\<close> for one record: the
  entry appended to \<^verbatim>\<open>upcoming_birthdays\<close>, if any. Reading \<^verbatim>\<open>record.birthday.value\<close>
  of a record whose \<^verbatim>\<open>birthday\<close> is \<^verbatim>\<open>None\<close> raises \<^verbatim>\<open>AttributeError\<close>. The two calls of
  \<^verbatim>\<open>date.today()\<close> are taken to return the same date \<open>today\<close>.
\<close>

definition upcoming_entry :: "date \<Rightarrow> Record \<Rightarrow> error + (string \<times> date \<times> date) option" where
  "upcoming_entry today record =
     (case birthday record of
        None \<Rightarrow> Inl AttributeError
      | Some b \<Rightarrow>
          (case mk_date (year today) (month b) (day b) of
             Inl e \<Rightarrow> Inl e
           | Inr birthday_this_year \<Rightarrow>
               let days_until_birthday = date_sub_days birthday_this_year today;
                   days_until_birthday =
                     (if weekday birthday_this_year = 5 then days_until_birthday + 2
                      else if weekday birthday_this_year = 6 then days_until_birthday + 1
                      else days_until_birthday)
               in if 0 \<le> days_until_birthday \<and> days_until_birthday \<le> 7
                  then (case date_add_days today days_until_birthday of
                          Inl e \<Rightarrow> Inl e
                        | Inr congrats_day \<Rightarrow>
                            Inr (Some (name record, birthday_this_year, congrats_day)))
                  else Inr None))"

text \<open>The loop itself: the list \<^verbatim>\<open>upcoming_birthdays\<close> after the records \<open>rs\<close>, starting
  from \<open>acc\<close>.\<close>

fun upcoming_birthdays ::
  "date \<Rightarrow> Record list \<Rightarrow> (string \<times> date \<times> date) list \<Rightarrow> error + (string \<times> date \<times> date) list"
where
  "upcoming_birthdays today [] acc = Inr acc"
| "upcoming_birthdays today (r # rs) acc =
     (case upcoming_entry today r of
        Inl e \<Rightarrow> Inl e
      | Inr None \<Rightarrow> upcoming_birthdays today rs acc
      | Inr (Some entry) \<Rightarrow> upcoming_birthdays today rs (acc @ [entry]))"

text \<open>The method returns the list formatted into one string.\<close>

definition get_upcoming_birthdays :: "date \<Rightarrow> Record AddressBook \<Rightarrow> error + string" where
  "get_upcoming_birthdays today book =
     (case upcoming_birthdays today (map snd book) [] of
        Inl e \<Rightarrow> Inl e
      | Inr entries \<Rightarrow>
          Inr (''Upcoming birthdays: '' @
               join [CHR 0x0A]
                 (map (\<lambda>(nm, bday, congrats_day). nm @ '' on '' @ date_str bday) entries)))"

subsection \<open>The commands of \<^verbatim>\<open>cli_bot.py\<close>\<close>

text \<open>
  A command is modelled by the lines it prints and its outcome. \<^verbatim>\<open>search_contact\<close>, before
  its decorator: one line for every entry whose key or one of whose phones contains the
  pattern, both in lower case; \<^verbatim>\<open>found\<close> is set exactly when a line was printed.
\<close>

definition search_contact :: "string \<Rightarrow> Record AddressBook \<Rightarrow> string list \<times> (error + unit)" where
  "search_contact pattern phonebook =
     (let printed =
            map (\<lambda>(nm, record). nm @ '': '' @ join ''; '' (phones record))
              (filter
                 (\<lambda>(nm, record).
                    str_contains (lower nm) (lower pattern) \<or>
                    list_ex (\<lambda>phone. str_contains (lower phone) (lower pattern)) (phones record))
                 phonebook)
      in if printed = []
         then (printed, Inl (ValueError (''Contact '' @ pattern @ '' not found.'')))
         else (printed, Inr ()))"

text \<open>
  The decorator \<^verbatim>\<open>input_error\<close>: the wrapper returns the message of a \<^verbatim>\<open>ValueError\<close>
  (\<open>Inl\<close> of the inner sum) in place of the function's own return value (\<open>Inr\<close>) and lets
  the exceptions it does not name pass. \<^verbatim>\<open>KeyError\<close> and \<^verbatim>\<open>IndexError\<close>, which it also
  catches, are raised by nothing that is modelled here.
\<close>

definition input_error :: "string list \<times> (error + 'a) \<Rightarrow> string list \<times> (error + (string + 'a))" where
  "input_error call =
     (case call of
        (printed, Inl (ValueError msg)) \<Rightarrow> (printed, Inr (Inl msg))
      | (printed, Inl e) \<Rightarrow> (printed, Inl e)
      | (printed, Inr v) \<Rightarrow> (printed, Inr (Inr v)))"

subsection \<open>Persistence\<close>

text \<open>
  \<^verbatim>\<open>json.dump\<close> writes \<^verbatim>\<open>dict\<close>, \<^verbatim>\<open>list\<close>, \<^verbatim>\<open>str\<close>, \<^verbatim>\<open>int\<close>, \<^verbatim>\<open>bool\<close> and \<^verbatim>\<open>None\<close>; for an object
  of any other class the encoder calls \<^verbatim>\<open>JSONEncoder.default\<close>, which raises \<^verbatim>\<open>TypeError\<close>.
  \<^verbatim>\<open>AddressBook\<close> derives from \<^verbatim>\<open>collections.UserDict\<close>, which is no subclass of \<^verbatim>\<open>dict\<close>.
  Two kinds of object are told apart: a \<^verbatim>\<open>dict\<close> of serializable values, which is the JSON
  object it is written as, and an \<^verbatim>\<open>AddressBook\<close>.
\<close>

datatype json =
    JNull
  | JBool bool
  | JInt int
  | JStr string
  | JArr "json list"
  | JObj "(string \<times> json) list"

datatype 'v pyobj =
    Plain_dict "(string \<times> json) list"
  | AddressBook_object "'v AddressBook"

definition json_encode :: "'v pyobj \<Rightarrow> error + (string \<times> json) list" where
  "json_encode obj =
     (case obj of
        Plain_dict kvs \<Rightarrow> Inr kvs
      | AddressBook_object book \<Rightarrow> Inl TypeError)"

text \<open>
  A file is empty (as \<^verbatim>\<open>open(path, "w")\<close> leaves it) or holds the text of a JSON object,
  the only kinds of content the two functions can leave for each other; the text of a
  JSON object is modelled by the object.
\<close>

datatype file_content =
    Empty_file
  | Json_text "(string \<times> json) list"

type_synonym files = "string \<rightharpoonup> file_content"

text \<open>\<^verbatim>\<open>save_phonebook\<close>: the files after the call and the outcome. The file is opened,
  and so emptied, before the encoder runs.\<close>

definition save_phonebook :: "'v AddressBook \<Rightarrow> string \<Rightarrow> files \<Rightarrow> files \<times> (error + unit)" where
  "save_phonebook phonebook filename fs =
     (let opened = fs(filename \<mapsto> Empty_file)
      in case json_encode (AddressBook_object phonebook) of
           Inl e \<Rightarrow> (opened, Inl e)
         | Inr kvs \<Rightarrow> (opened(filename \<mapsto> Json_text kvs), Inr ()))"

text \<open>
  \<^verbatim>\<open>load_phonebook\<close>: a missing file gives the empty \<^verbatim>\<open>AddressBook\<close>; \<^verbatim>\<open>json.load\<close> of an
  empty file raises \<^verbatim>\<open>JSONDecodeError\<close>, a subclass of \<^verbatim>\<open>ValueError\<close>; otherwise
  \<^verbatim>\<open>AddressBook(json.load(file))\<close> holds the parsed JSON values themselves, not
  \<^verbatim>\<open>Record\<close> objects.
\<close>

definition load_phonebook :: "string \<Rightarrow> files \<Rightarrow> error + json AddressBook" where
  "load_phonebook filename fs =
     (case fs filename of
        None \<Rightarrow> Inr []
      | Some Empty_file \<Rightarrow> Inl (ValueError ''Expecting value: line 1 column 1 (char 0)'')
      | Some (Json_text kvs) \<Rightarrow> Inr kvs)"

subsection \<open>A phone normalizer\<close>

text \<open>
  Modelled from the spec: the module \<^verbatim>\<open>normalize_phone\<close> is missing from the sources. The
  spec leaves the grammar to the implementation and gives as its example an optional
  leading \<open>+\<close>, 10 to 15 digits and separators that are stripped, with a digits-only
  canonical form; an input outside the grammar is rejected. This normalizer is used only
  to instantiate the parameter \<open>norm\<close> at concrete inputs.
\<close>

definition is_separator :: "char \<Rightarrow> bool" where
  "is_separator c = (c = CHR '' '' \<or> c = CHR ''-'' \<or> c = CHR ''('' \<or> c = CHR '')'')"

definition normalize_phone :: normalizer where
  "normalize_phone raw =
     (let s = filter (\<lambda>c. \<not> is_separator c) raw;
          ds = (if s \<noteq> [] \<and> hd s = CHR ''+'' then tl s else s)
      in if list_all is_digit ds \<and> 10 \<le> length ds \<and> length ds \<le> 15
         then Inr ds
         else Inl (ValueError ''Invalid phone number''))"

subsection \<open>The scheduler in the words of the specification\<close>

text \<open>
  The quantities the specification names, for a reference date \<open>today\<close> and a birthday
  \<open>b\<close>: the birthday's month and day in today's year, the shift of the weekend policy
  (\<^verbatim>\<open>weekday\<close> 5 is Saturday, 6 is Sunday), the shifted number of days until the birthday,
  the entry of a record and the window test. They are compared with the loop of the source
  below.
\<close>

definition birthday_this_year :: "date \<Rightarrow> date \<Rightarrow> date" where
  "birthday_this_year today b = \<lparr>year = year today, month = month b, day = day b\<rparr>"

definition weekend_shift :: "date \<Rightarrow> int" where
  "weekend_shift d = (if weekday d = 5 then 2 else if weekday d = 6 then 1 else 0)"

definition days_until :: "date \<Rightarrow> date \<Rightarrow> int" where
  "days_until today b =
     toordinal (birthday_this_year today b) - toordinal today
       + weekend_shift (birthday_this_year today b)"

definition scheduled_entry :: "date \<Rightarrow> Record \<Rightarrow> string \<times> date \<times> date" where
  "scheduled_entry today r =
     (let b = the (birthday r)
      in (name r, birthday_this_year today b, fromordinal (toordinal today + days_until today b)))"

definition in_window :: "date \<Rightarrow> Record \<Rightarrow> bool" where
  "in_window today r =
     (let n = days_until today (the (birthday r)) in 0 \<le> n \<and> n \<le> 7)"

text \<open>A valid \<^verbatim>\<open>DD.MM.YYYY\<close> input is the text of a calendar date in that format: two
  digits, two digits and four digits.\<close>

definition dd_mm_yyyy :: "date \<Rightarrow> string" where
  "dd_mm_yyyy d =
     [digit_char (day d div 10), digit_char (day d mod 10), CHR ''.'',
      digit_char (month d div 10), digit_char (month d mod 10), CHR ''.'',
      digit_char (year d div 1000), digit_char (year d div 100 mod 10),
      digit_char (year d div 10 mod 10), digit_char (year d mod 10)]"

section \<open>Properties\<close>

subsection \<open>Ordinals of valid dates\<close>

lemma month_cases:
  "1 \<le> m \<Longrightarrow> m \<le> 12 \<Longrightarrow>
   m = 1 \<or> m = 2 \<or> m = 3 \<or> m = 4 \<or> m = 5 \<or> m = 6 \<or> m = 7 \<or> m = 8 \<or> m = 9 \<or> m = 10 \<or> m = 11 \<or> m = (12::int)"
  by presburger

lemma days_before_year_nonneg: "1 \<le> y \<Longrightarrow> 0 \<le> days_before_year y"
proof -
  assume "1 \<le> y"
  then have "0 \<le> y - 1" by simp
  then have a: "(y - 1) div 100 \<le> (y - 1) div 4" "0 \<le> (y - 1) div 400" "0 \<le> (y - 1) * 365"
    by (simp_all add: zdiv_mono2)
  then show ?thesis unfolding days_before_year_def Let_def by linarith
qed

lemma days_before_year_upper: "1 \<le> y \<Longrightarrow> y \<le> 9998 \<Longrightarrow> days_before_year y \<le> 3651428"
proof -
  assume "1 \<le> y" "y \<le> 9998"
  then have h: "y - 1 \<le> 9997" "0 \<le> y - 1" by simp_all
  have a: "(y - 1) div 4 \<le> 9997 div 4" "(y - 1) div 400 \<le> 9997 div 400"
    using h by (simp_all add: zdiv_mono1)
  have b: "0 \<le> (y - 1) div 100" using h by simp
  show ?thesis unfolding days_before_year_def Let_def using a b h by simp
qed

lemma day_of_year_bounds:
  assumes "1 \<le> m" "m \<le> 12" "1 \<le> d" "d \<le> days_in_month y m"
  shows "1 \<le> days_before_month y m + d \<and> days_before_month y m + d \<le> 366"
  using month_cases [OF assms(1,2)] assms(3,4)
  by (elim disjE)
    (simp_all add: days_before_month_def days_in_month_def DAYS_BEFORE_MONTH_def
      DAYS_IN_MONTH_def split: if_splits)

lemma day_of_year_common:
  assumes "1 \<le> m" "m \<le> 12" "d \<le> days_in_month y m" "\<not> is_leap y"
  shows "days_before_month y m + d \<le> 365"
  using month_cases [OF assms(1,2)] assms(3,4)
  by (elim disjE)
    (simp_all add: days_before_month_def days_in_month_def DAYS_BEFORE_MONTH_def
      DAYS_IN_MONTH_def)

lemma days_before_year_9999: "days_before_year 9999 = 3651694"
  by (simp add: days_before_year_def)

lemma is_leap_9999: "\<not> is_leap 9999"
  by (simp add: is_leap_def)

lemma toordinal_bounds:
  assumes "valid_date d"
  shows "1 \<le> toordinal d \<and> toordinal d \<le> MAXORDINAL"
proof -
  from assms have v: "1 \<le> year d" "year d \<le> 9999" "1 \<le> month d" "month d \<le> 12"
    "1 \<le> day d" "day d \<le> days_in_month (year d) (month d)"
    by (simp_all add: valid_date_def)
  note doy = day_of_year_bounds [OF v(3,4,5,6)]
  from days_before_year_nonneg [OF v(1)] doy have lo: "1 \<le> toordinal d"
    by (simp add: toordinal_def)
  have "toordinal d \<le> MAXORDINAL"
  proof (cases "year d = 9999")
    case True
    with day_of_year_common [OF v(3,4,6)] show ?thesis
      by (simp add: toordinal_def MAXORDINAL_def days_before_year_9999 is_leap_9999)
  next
    case False
    with v(2) have "year d \<le> 9998" by simp
    from days_before_year_upper [OF v(1) this] doy show ?thesis
      by (simp add: toordinal_def MAXORDINAL_def)
  qed
  with lo show ?thesis by simp
qed


lemma mk_date_valid:
  "valid_date \<lparr>year = y, month = m, day = d\<rparr> \<Longrightarrow> mk_date y m d = Inr \<lparr>year = y, month = m, day = d\<rparr>"
proof -
  assume v: "valid_date \<lparr>year = y, month = m, day = d\<rparr>"
  then have "1 \<le> m" "m \<le> 12" by (simp_all add: valid_date_def)
  from month_cases [OF this] v have "d \<le> 31"
    by (elim disjE)
      (simp_all add: valid_date_def days_in_month_def DAYS_IN_MONTH_def split: if_splits)
  with v show ?thesis by (simp add: mk_date_def valid_date_def fits_c_int_def)
qed

lemma shifted_ordinal_bounds:
  assumes "valid_date d"
  shows "toordinal d + weekend_shift d \<le> MAXORDINAL"
proof -
  from toordinal_bounds [OF assms] have "toordinal d \<le> 3652059"
    by (simp add: MAXORDINAL_def)
  then show ?thesis
    unfolding weekend_shift_def weekday_def MAXORDINAL_def by presburger
qed

lemma upcoming_entry_scheduled:
  assumes today: "valid_date today"
    and b: "birthday r = Some b" and v: "valid_date (birthday_this_year today b)"
  shows "upcoming_entry today r =
           Inr (if in_window today r then Some (scheduled_entry today r) else None)"
proof -
  let ?bty = "birthday_this_year today b"
  have mk: "mk_date (year today) (month b) (day b) = Inr ?bty"
    using mk_date_valid v by (simp add: birthday_this_year_def)
  have du: "(if weekday ?bty = 5 then date_sub_days ?bty today + 2
             else if weekday ?bty = 6 then date_sub_days ?bty today + 1
             else date_sub_days ?bty today) = days_until today b"
    by (simp add: days_until_def weekend_shift_def date_sub_days_def)
  have add: "date_add_days today (days_until today b) =
               Inr (fromordinal (toordinal today + days_until today b))"
    if "0 \<le> days_until today b"
  proof -
    from toordinal_bounds [OF today] that have "0 < toordinal today + days_until today b"
      by simp
    moreover from shifted_ordinal_bounds [OF v]
    have "toordinal today + days_until today b \<le> MAXORDINAL"
      by (simp add: days_until_def)
    ultimately show ?thesis by (simp add: date_add_days_def)
  qed
  show ?thesis
    by (simp add: upcoming_entry_def b mk du Let_def in_window_def scheduled_entry_def add)
qed

lemma upcoming_birthdays_scheduled:
  assumes "valid_date today"
    and "\<forall>r \<in> set rs. \<exists>b. birthday r = Some b \<and> valid_date (birthday_this_year today b)"
  shows "upcoming_birthdays today rs acc =
           Inr (acc @ map (scheduled_entry today) (filter (in_window today) rs))"
  using assms(2)
proof (induction rs arbitrary: acc)
  case Nil
  show ?case by simp
next
  case (Cons r rs)
  then obtain b where b: "birthday r = Some b" "valid_date (birthday_this_year today b)"
    by auto
  from Cons.prems have rest: "\<forall>r \<in> set rs. \<exists>b. birthday r = Some b \<and> valid_date (birthday_this_year today b)"
    by simp
  show ?case
    by (simp add: upcoming_entry_scheduled [OF assms(1) b] Cons.IH [OF rest])
qed


lemma in_window_past:
  assumes "birthday r = Some b"
    and "toordinal (birthday_this_year today b) < toordinal today"
  shows "in_window today r \<longleftrightarrow>
           (weekday (birthday_this_year today b) = 5 \<and>
              toordinal today - toordinal (birthday_this_year today b) \<le> 2) \<or>
           (weekday (birthday_this_year today b) = 6 \<and>
              toordinal today - toordinal (birthday_this_year today b) = 1)"
  using assms by (auto simp: in_window_def days_until_def weekend_shift_def Let_def)

lemma scheduled_entry_in_window:
  assumes "birthday r = Some b" and "r' \<in> set rs" and "in_window today r'"
    and "scheduled_entry today r' = (name r, birthday_this_year today b, c)"
  shows "in_window today r"
proof -
  from assms(4) have "birthday_this_year today (the (birthday r')) = birthday_this_year today b"
    by (simp add: scheduled_entry_def Let_def)
  then have "days_until today (the (birthday r')) = days_until today b"
    by (simp add: days_until_def)
  with assms(1,3) show ?thesis by (simp add: in_window_def)
qed

subsection \<open>Parsing a birthday\<close>

lemma digit_cases:
  "0 \<le> k \<Longrightarrow> k \<le> 9 \<Longrightarrow>
   k = 0 \<or> k = 1 \<or> k = 2 \<or> k = 3 \<or> k = 4 \<or> k = 5 \<or> k = 6 \<or> k = 7 \<or> k = 8 \<or> k = (9::int)"
  by presburger

lemma is_digit_other:
  "is_digit c \<Longrightarrow>
   \<not> is_space c \<and> c \<noteq> CHR ''.'' \<and> c \<noteq> CHR ''-'' \<and> c \<noteq> CHR ''+'' \<and> c \<noteq> CHR ''_''"
  by (auto simp: is_digit_def is_space_def Let_def)

lemma digit_char_value:
  assumes "0 \<le> k" "k \<le> 9"
  shows "is_digit (digit_char k) \<and> int (of_char (digit_char k)) = 48 + k"
  using digit_cases [OF assms]
  by (elim disjE) (simp_all add: digit_char_def is_digit_def Let_def)

lemma digit_char_props:
  assumes "0 \<le> k" "k \<le> 9"
  shows "is_digit (digit_char k) \<and> \<not> is_space (digit_char k) \<and> digit_char k \<noteq> CHR ''.'' \<and>
         digit_char k \<noteq> CHR ''-'' \<and> digit_char k \<noteq> CHR ''+'' \<and> digit_char k \<noteq> CHR ''_'' \<and>
         int (of_char (digit_char k)) = 48 + k"
  using digit_char_value [OF assms] is_digit_other [of "digit_char k"] by simp

lemma py_int_2_digits:
  assumes "0 \<le> a" "a \<le> 9" "0 \<le> b" "b \<le> 9"
  shows "py_int [digit_char a, digit_char b] = Inr (a * 10 + b)"
  using digit_char_props [OF assms(1,2)] digit_char_props [OF assms(3,4)]
  by (simp add: py_int_def strip_def digits_value_def Let_def)

lemma py_int_4_digits:
  assumes "0 \<le> a" "a \<le> 9" "0 \<le> b" "b \<le> 9" "0 \<le> c" "c \<le> 9" "0 \<le> e" "e \<le> 9"
  shows "py_int [digit_char a, digit_char b, digit_char c, digit_char e] =
           Inr (((a * 10 + b) * 10 + c) * 10 + e)"
  using digit_char_props [OF assms(1,2)] digit_char_props [OF assms(3,4)]
    digit_char_props [OF assms(5,6)] digit_char_props [OF assms(7,8)]
  by (simp add: py_int_def strip_def digits_value_def Let_def)

lemma valid_date_day_le_31: "valid_date d \<Longrightarrow> day d \<le> 31"
proof -
  assume v: "valid_date d"
  then have "1 \<le> month d" "month d \<le> 12" by (simp_all add: valid_date_def)
  from month_cases [OF this] v show ?thesis
    by (elim disjE)
      (simp_all add: valid_date_def days_in_month_def DAYS_IN_MONTH_def split: if_splits)
qed

lemma mk_date_Inr_iff:
  "mk_date y m dd = Inr d \<longleftrightarrow> d = \<lparr>year = y, month = m, day = dd\<rparr> \<and> valid_date d"
proof
  assume "mk_date y m dd = Inr d"
  then show "d = \<lparr>year = y, month = m, day = dd\<rparr> \<and> valid_date d"
    by (auto simp: mk_date_def valid_date_def split: if_splits)
next
  assume "d = \<lparr>year = y, month = m, day = dd\<rparr> \<and> valid_date d"
  then show "mk_date y m dd = Inr d" using mk_date_valid [of y m dd] by auto
qed

lemma Birthday_Inr_iff:
  "Birthday raw = Inr d \<longleftrightarrow>
     (\<exists>a b c. split_on CHR ''.'' raw = [a, b, c] \<and> py_int a = Inr (day d) \<and>
        py_int b = Inr (month d) \<and> py_int c = Inr (year d) \<and> valid_date d)"
proof
  assume "Birthday raw = Inr d"
  then obtain a b c dd m y where "split_on CHR ''.'' raw = [a, b, c]" "py_int a = Inr dd"
    "py_int b = Inr m" "py_int c = Inr y" "mk_date y m dd = Inr d"
    unfolding Birthday_def Let_def
    by (simp split: list.splits sum.splits error.splits)
  then show "\<exists>a b c. split_on CHR ''.'' raw = [a, b, c] \<and> py_int a = Inr (day d) \<and>
        py_int b = Inr (month d) \<and> py_int c = Inr (year d) \<and> valid_date d"
    by (auto simp: mk_date_Inr_iff)
next
  assume "\<exists>a b c. split_on CHR ''.'' raw = [a, b, c] \<and> py_int a = Inr (day d) \<and>
        py_int b = Inr (month d) \<and> py_int c = Inr (year d) \<and> valid_date d"
  then obtain a b c where h: "split_on CHR ''.'' raw = [a, b, c]" "py_int a = Inr (day d)"
    "py_int b = Inr (month d)" "py_int c = Inr (year d)" "valid_date d"
    by blast
  have "mk_date (year d) (month d) (day d) = Inr d"
    using h(5) by (simp add: mk_date_Inr_iff)
  with h show "Birthday raw = Inr d" by (simp add: Birthday_def)
qed

lemma Birthday_ValueError:
  "Birthday raw = Inl (ValueError msg) \<Longrightarrow> msg = ''Invalid date format. Use DD.MM.YYYY''"
  unfolding Birthday_def Let_def
  by (simp split: list.splits sum.splits error.splits)

lemma Birthday_separator_not_stripped:
  "py_int (CHR 0x1C # ''01'') = Inl (ValueError ''invalid literal for int() with base 10'') \<and>
   py_int (CHR 0xA0 # ''01'') = Inr 1 \<and>
   Birthday (CHR 0x1C # ''01.01.2020'') = Inl (ValueError ''Invalid date format. Use DD.MM.YYYY'')"
  by code_simp

lemma decimal_4:
  "((y div 1000 * 10 + y div 100 mod 10) * 10 + y div 10 mod 10) * 10 + y mod 10 = (y::int)"
proof -
  have a: "y div 100 = y div 10 div 10" "y div 1000 = y div 100 div 10"
    by (simp_all add: zdiv_zmult2_eq [symmetric])
  have "y div 1000 * 10 + y div 100 mod 10 = y div 100"
    unfolding a(2) by (rule div_mult_mod_eq)
  moreover have "y div 100 * 10 + y div 10 mod 10 = y div 10"
    unfolding a(1) by (rule div_mult_mod_eq)
  moreover have "y div 10 * 10 + y mod 10 = y"
    by (rule div_mult_mod_eq)
  ultimately show ?thesis by simp
qed

lemma digit_bounds_4:
  assumes "0 \<le> y" "y \<le> (9999::int)"
  shows "0 \<le> y div 1000 \<and> y div 1000 \<le> 9 \<and> 0 \<le> y div 100 mod 10 \<and> y div 100 mod 10 \<le> 9 \<and>
         0 \<le> y div 10 mod 10 \<and> y div 10 mod 10 \<le> 9 \<and> 0 \<le> y mod 10 \<and> y mod 10 \<le> 9"
proof -
  have "y div 1000 \<le> 9999 div 1000" using assms(2) by (rule zdiv_mono1) simp
  moreover have "0 \<le> y div 1000" using assms(1) by simp
  moreover have "x mod 10 \<le> 9" for x :: int
    using pos_mod_bound [of 10 x] by simp
  ultimately show ?thesis by simp
qed

lemma digit_bounds_2:
  assumes "0 \<le> y" "y \<le> (99::int)"
  shows "0 \<le> y div 10 \<and> y div 10 \<le> 9 \<and> 0 \<le> y mod 10 \<and> y mod 10 \<le> 9"
proof -
  have "y div 10 \<le> 99 div 10" using assms(2) by (rule zdiv_mono1) simp
  moreover have "0 \<le> y div 10" using assms(1) by simp
  moreover have "y mod 10 \<le> 9"
    using pos_mod_bound [of 10 y] by simp
  ultimately show ?thesis by simp
qed

lemma Birthday_dd_mm_yyyy:
  assumes "valid_date d"
  shows "Birthday (dd_mm_yyyy d) = Inr d"
proof -
  from assms valid_date_day_le_31 [OF assms]
  have r: "0 \<le> day d" "day d \<le> 99" "0 \<le> month d" "month d \<le> 99" "0 \<le> year d" "year d \<le> 9999"
    by (simp_all add: valid_date_def)
  note bd = digit_bounds_2 [OF r(1,2)]
  note bm = digit_bounds_2 [OF r(3,4)]
  note byr = digit_bounds_4 [OF r(5,6)]
  have dd: "py_int [digit_char (day d div 10), digit_char (day d mod 10)] = Inr (day d)"
    using py_int_2_digits [of "day d div 10" "day d mod 10"] bd by simp
  have mm: "py_int [digit_char (month d div 10), digit_char (month d mod 10)] = Inr (month d)"
    using py_int_2_digits [of "month d div 10" "month d mod 10"] bm by simp
  have yy: "py_int [digit_char (year d div 1000), digit_char (year d div 100 mod 10),
                   digit_char (year d div 10 mod 10), digit_char (year d mod 10)] = Inr (year d)"
    using py_int_4_digits [of "year d div 1000" "year d div 100 mod 10" "year d div 10 mod 10"
        "year d mod 10"] byr
    by (simp only: decimal_4)
  have nd: "digit_char (day d div 10) \<noteq> CHR ''.''" "digit_char (day d mod 10) \<noteq> CHR ''.''"
    "digit_char (month d div 10) \<noteq> CHR ''.''" "digit_char (month d mod 10) \<noteq> CHR ''.''"
    "digit_char (year d div 1000) \<noteq> CHR ''.''" "digit_char (year d div 100 mod 10) \<noteq> CHR ''.''"
    "digit_char (year d div 10 mod 10) \<noteq> CHR ''.''" "digit_char (year d mod 10) \<noteq> CHR ''.''"
    using bd bm byr by (simp_all add: digit_char_props)
  have sp: "split_on CHR ''.'' (dd_mm_yyyy d) =
          [[digit_char (day d div 10), digit_char (day d mod 10)],
           [digit_char (month d div 10), digit_char (month d mod 10)],
           [digit_char (year d div 1000), digit_char (year d div 100 mod 10),
            digit_char (year d div 10 mod 10), digit_char (year d mod 10)]]"
    using nd by (simp add: dd_mm_yyyy_def)
  have "\<exists>a b c. split_on CHR ''.'' (dd_mm_yyyy d) = [a, b, c] \<and> py_int a = Inr (day d) \<and>
        py_int b = Inr (month d) \<and> py_int c = Inr (year d) \<and> valid_date d"
    using sp dd mm yy assms by blast
  then show ?thesis by (simp only: Birthday_Inr_iff)
qed

subsection \<open>Phones of a record\<close>

lemma search_phone_loop_found:
  "norm x = Inr v \<Longrightarrow> v \<in> set ps \<Longrightarrow> search_phone_loop norm x ps = Inr (Some v)"
  by (induction ps) auto

lemma search_phone_loop_absent:
  "norm x = Inr v \<Longrightarrow> v \<notin> set ps \<Longrightarrow> search_phone_loop norm x ps = Inr None"
  by (induction ps) auto

lemma edit_phone_loop_found:
  "norm old = Inr a \<Longrightarrow> norm new = Inr b \<Longrightarrow> a \<in> set ps \<Longrightarrow>
   \<exists>xs ys. ps = xs @ a # ys \<and> a \<notin> set xs \<and>
     edit_phone_loop norm old new ps =
       Inr (xs @ b # ys, Some (''Phone '' @ old @ '' edited to '' @ new))"
proof (induction ps)
  case Nil
  then show ?case by simp
next
  case (Cons p ps)
  let ?msg = "Some (''Phone '' @ old @ '' edited to '' @ new)"
  show ?case
  proof (cases "p = a")
    case True
    with Cons.prems have "edit_phone_loop norm old new (p # ps) = Inr ([] @ b # ps, ?msg)"
      by simp
    with True show ?thesis by (metis append_Nil empty_iff list.set(1))
  next
    case False
    with Cons obtain xs ys where h: "ps = xs @ a # ys" "a \<notin> set xs"
      "edit_phone_loop norm old new ps = Inr (xs @ b # ys, ?msg)"
      by auto
    with False Cons.prems
    have "edit_phone_loop norm old new (p # ps) = Inr ((p # xs) @ b # ys, ?msg)"
      by simp
    moreover have "p # ps = (p # xs) @ a # ys" "a \<notin> set (p # xs)"
      using h False by auto
    ultimately show ?thesis by blast
  qed
qed

lemma normalize_phone_dashes: "normalize_phone ''050-123-45-67'' = Inr ''0501234567''"
  by (simp add: normalize_phone_def is_separator_def is_digit_def)

lemma normalize_phone_spaces: "normalize_phone ''067 111 22 33'' = Inr ''0671112233''"
  by (simp add: normalize_phone_def is_separator_def is_digit_def)

lemma normalize_phone_canonical: "normalize_phone ''0501234567'' = Inr ''0501234567''"
  by (simp add: normalize_phone_def is_separator_def is_digit_def)

lemma normalize_phone_plus: "normalize_phone ''+38 (050) 123-45-67'' = Inr ''380501234567''"
  by (simp add: normalize_phone_def is_separator_def is_digit_def)

text \<open>
  Claim C5. \<^verbatim>\<open>add_phone\<close> is to reject a phone whose normalized value is already stored on
  the record, so that adding the same raw phone twice fails the second time. The method
  tests the raw argument against the stored, normalized values: whenever normalization
  changes the raw phone \<open>x\<close> and \<open>x\<close> itself is not stored, both calls succeed and the
  record ends with the normalized value stored twice.
\<close>

theorem add_phone_twice_accepted:
  assumes "norm x = Inr v" and "v \<noteq> x" and "x \<notin> set (phones r)"
  shows "add_phone norm x r = Inr (r\<lparr>phones := phones r @ [v]\<rparr>) \<and>
         add_phone norm x (r\<lparr>phones := phones r @ [v]\<rparr>) =
           Inr (r\<lparr>phones := phones r @ [v, v]\<rparr>)"
  using assms by (simp add: add_phone_def)

theorem add_phone_twice_accepted_witness:
  "add_phone normalize_phone ''050-123-45-67'' \<lparr>name = ''Bob'', phones = [], birthday = None\<rparr>
     = Inr \<lparr>name = ''Bob'', phones = [''0501234567''], birthday = None\<rparr> \<and>
   add_phone normalize_phone ''050-123-45-67''
     \<lparr>name = ''Bob'', phones = [''0501234567''], birthday = None\<rparr>
     = Inr \<lparr>name = ''Bob'', phones = [''0501234567'', ''0501234567''], birthday = None\<rparr>"
  using add_phone_twice_accepted [of normalize_phone "''050-123-45-67''" "''0501234567''"
      "\<lparr>name = ''Bob'', phones = [], birthday = None\<rparr>"] normalize_phone_dashes
  by simp

text \<open>
  Claim C9, as amended. For a valid raw phone \<open>x\<close> that is not itself among the stored
  values, \<^verbatim>\<open>add_phone(x)\<close> appends the normalized value of \<open>x\<close> and \<^verbatim>\<open>search_phone(x)\<close> on
  the updated record returns that value. When \<open>x\<close> itself is stored, \<^verbatim>\<open>add_phone(x)\<close> raises
  its duplicate error, and \<^verbatim>\<open>search_phone(x)\<close> on the unchanged record returns the normalized
  value if it is stored and \<^verbatim>\<open>None\<close> otherwise.
\<close>

theorem add_phone_then_search_phone:
  assumes "norm x = Inr v"
  shows "(x \<notin> set (phones r) \<longrightarrow>
            add_phone norm x r = Inr (r\<lparr>phones := phones r @ [v]\<rparr>) \<and>
            search_phone norm x (r\<lparr>phones := phones r @ [v]\<rparr>) = Inr (Some v)) \<and>
         (x \<in> set (phones r) \<longrightarrow>
            add_phone norm x r = Inl (ValueError (''Phone '' @ x @ '' already exists'')) \<and>
            search_phone norm x r = Inr (if v \<in> set (phones r) then Some v else None))"
  using assms
  by (simp add: add_phone_def search_phone_def search_phone_loop_found
      search_phone_loop_absent)

theorem add_phone_then_search_phone_witness:
  "add_phone normalize_phone ''+38 (050) 123-45-67''
     \<lparr>name = ''Bob'', phones = [''0671112233''], birthday = None\<rparr>
     = Inr \<lparr>name = ''Bob'', phones = [''0671112233'', ''380501234567''], birthday = None\<rparr> \<and>
   search_phone normalize_phone ''+38 (050) 123-45-67''
     \<lparr>name = ''Bob'', phones = [''0671112233'', ''380501234567''], birthday = None\<rparr>
     = Inr (Some ''380501234567'') \<and>
   add_phone normalize_phone ''0501234567''
     \<lparr>name = ''Bob'', phones = [''0501234567''], birthday = None\<rparr>
     = Inl (ValueError ''Phone 0501234567 already exists'') \<and>
   search_phone normalize_phone ''0501234567''
     \<lparr>name = ''Bob'', phones = [''0501234567''], birthday = None\<rparr>
     = Inr (Some ''0501234567'')"
  using add_phone_then_search_phone [of normalize_phone "''+38 (050) 123-45-67''"
      "''380501234567''" "\<lparr>name = ''Bob'', phones = [''0671112233''], birthday = None\<rparr>"]
    add_phone_then_search_phone [of normalize_phone "''0501234567''" "''0501234567''"
      "\<lparr>name = ''Bob'', phones = [''0501234567''], birthday = None\<rparr>"]
    normalize_phone_plus normalize_phone_canonical
  by simp

text \<open>The claim as stated, for every record, fails: \<open>0501234567\<close> is a valid raw phone, and
  on a record that stores it \<^verbatim>\<open>add_phone\<close> raises.\<close>

theorem add_phone_stored_counterexample:
  "normalize_phone ''0501234567'' = Inr ''0501234567'' \<and>
   add_phone normalize_phone ''0501234567''
     \<lparr>name = ''Bob'', phones = [''0501234567''], birthday = None\<rparr>
   = Inl (ValueError ''Phone 0501234567 already exists'')"
  by (simp add: add_phone_def normalize_phone_canonical)

text \<open>
  Claim C10. \<^verbatim>\<open>edit_phone\<close> does not check uniqueness again: on a record that stores both
  the normalized old phone and the normalized new phone, the call succeeds, keeps the
  number of phones and leaves two equal values, so a list of phones without duplicates
  does not stay so.
\<close>

theorem edit_phone_breaks_distinct:
  assumes "norm old = Inr a" and "norm new = Inr b"
    and "a \<in> set (phones r)" and "b \<in> set (phones r)" and "a \<noteq> b"
  shows "\<exists>r'. edit_phone norm old new r =
                 Inr (r', Some (''Phone '' @ old @ '' edited to '' @ new)) \<and>
               length (phones r') = length (phones r) \<and> \<not> distinct (phones r')"
proof -
  obtain xs ys where h: "phones r = xs @ a # ys" "a \<notin> set xs"
    "edit_phone_loop norm old new (phones r) =
       Inr (xs @ b # ys, Some (''Phone '' @ old @ '' edited to '' @ new))"
    using edit_phone_loop_found [OF assms(1,2,3)] by blast
  from assms(4,5) h(1) have "b \<in> set xs \<or> b \<in> set ys" by auto
  then have "\<not> distinct (xs @ b # ys)" by auto
  with h show ?thesis by (simp add: edit_phone_def)
qed

theorem edit_phone_breaks_distinct_witness:
  "distinct (phones \<lparr>name = ''Bob'', phones = [''0501234567'', ''0671112233''], birthday = None\<rparr>) \<and>
   edit_phone normalize_phone ''050-123-45-67'' ''067 111 22 33''
     \<lparr>name = ''Bob'', phones = [''0501234567'', ''0671112233''], birthday = None\<rparr>
     = Inr (\<lparr>name = ''Bob'', phones = [''0671112233'', ''0671112233''], birthday = None\<rparr>,
            Some ''Phone 050-123-45-67 edited to 067 111 22 33'') \<and>
   \<not> distinct (phones \<lparr>name = ''Bob'', phones = [''0671112233'', ''0671112233''], birthday = None\<rparr>)"
proof -
  have e: "edit_phone normalize_phone ''050-123-45-67'' ''067 111 22 33''
     \<lparr>name = ''Bob'', phones = [''0501234567'', ''0671112233''], birthday = None\<rparr>
     = Inr (\<lparr>name = ''Bob'', phones = [''0671112233'', ''0671112233''], birthday = None\<rparr>,
            Some ''Phone 050-123-45-67 edited to 067 111 22 33'')"
    by (simp add: edit_phone_def normalize_phone_dashes normalize_phone_spaces)
  show ?thesis
    using edit_phone_breaks_distinct [of normalize_phone "''050-123-45-67''" "''0501234567''"
        "''067 111 22 33''" "''0671112233''"
        "\<lparr>name = ''Bob'', phones = [''0501234567'', ''0671112233''], birthday = None\<rparr>"]
      normalize_phone_dashes normalize_phone_spaces e
    by simp
qed

text \<open>
  Claim C6, as amended. \<^verbatim>\<open>Birthday\<close> succeeds exactly on three integer literals separated
  by dots that form a real calendar date, so every malformed or impossible input makes it
  fail. \<^verbatim>\<open>add_birthday\<close> does not pass the \<^verbatim>\<open>ValueError\<close> on to its caller: it prints the
  message and returns normally, and the record keeps the birthday it had. On every valid
  \<^verbatim>\<open>DD.MM.YYYY\<close> input it stores the date in place of the birthday it had.
\<close>

theorem add_birthday_outcome:
  "(Birthday raw = Inr d \<longleftrightarrow>
      (\<exists>a b c. split_on CHR ''.'' raw = [a, b, c] \<and> py_int a = Inr (day d) \<and>
         py_int b = Inr (month d) \<and> py_int c = Inr (year d) \<and> valid_date d)) \<and>
   (Birthday raw = Inr d \<longrightarrow> add_birthday raw r = Inr (r\<lparr>birthday := Some d\<rparr>, [])) \<and>
   (Birthday raw = Inl (ValueError msg) \<longrightarrow>
      msg = ''Invalid date format. Use DD.MM.YYYY'' \<and> add_birthday raw r = Inr (r, [msg])) \<and>
   (valid_date d \<longrightarrow> add_birthday (dd_mm_yyyy d) r = Inr (r\<lparr>birthday := Some d\<rparr>, []))"
proof (intro conjI impI)
  show "Birthday raw = Inr d \<longleftrightarrow>
      (\<exists>a b c. split_on CHR ''.'' raw = [a, b, c] \<and> py_int a = Inr (day d) \<and>
         py_int b = Inr (month d) \<and> py_int c = Inr (year d) \<and> valid_date d)"
    by (rule Birthday_Inr_iff)
next
  assume "Birthday raw = Inr d"
  then show "add_birthday raw r = Inr (r\<lparr>birthday := Some d\<rparr>, [])"
    by (simp add: add_birthday_def)
next
  assume "Birthday raw = Inl (ValueError msg)"
  then show "msg = ''Invalid date format. Use DD.MM.YYYY''"
    by (rule Birthday_ValueError)
next
  assume "Birthday raw = Inl (ValueError msg)"
  then show "add_birthday raw r = Inr (r, [msg])"
    by (simp add: add_birthday_def)
next
  assume "valid_date d"
  then show "add_birthday (dd_mm_yyyy d) r = Inr (r\<lparr>birthday := Some d\<rparr>, [])"
    by (simp add: add_birthday_def Birthday_dd_mm_yyyy)
qed

theorem add_birthday_outcome_witness:
  "add_birthday ''29.02.2021''
     \<lparr>name = ''Bob'', phones = [], birthday = Some \<lparr>year = 1990, month = 5, day = 17\<rparr>\<rparr>
     = Inr (\<lparr>name = ''Bob'', phones = [], birthday = Some \<lparr>year = 1990, month = 5, day = 17\<rparr>\<rparr>,
            [''Invalid date format. Use DD.MM.YYYY'']) \<and>
   valid_date \<lparr>year = 2020, month = 2, day = 29\<rparr> \<and>
   dd_mm_yyyy \<lparr>year = 2020, month = 2, day = 29\<rparr> = ''29.02.2020'' \<and>
   add_birthday ''29.02.2020''
     \<lparr>name = ''Bob'', phones = [], birthday = Some \<lparr>year = 1990, month = 5, day = 17\<rparr>\<rparr>
     = Inr (\<lparr>name = ''Bob'', phones = [], birthday = Some \<lparr>year = 2020, month = 2, day = 29\<rparr>\<rparr>, [])"
proof -
  let ?r = "\<lparr>name = ''Bob'', phones = [], birthday = Some \<lparr>year = 1990, month = 5, day = 17\<rparr>\<rparr>"
  let ?d = "\<lparr>year = 2020, month = 2, day = 29\<rparr>"
  have bad: "Birthday ''29.02.2021'' = Inl (ValueError ''Invalid date format. Use DD.MM.YYYY'')"
    by code_simp
  have good: "Birthday ''29.02.2020'' = Inr ?d"
    by code_simp
  have v: "valid_date ?d" by code_simp
  have f: "dd_mm_yyyy ?d = ''29.02.2020''" by code_simp
  show ?thesis
    using add_birthday_outcome [of "''29.02.2021''" ?d ?r "''Invalid date format. Use DD.MM.YYYY''"]
      add_birthday_outcome [of "''29.02.2020''" ?d ?r "''Invalid date format. Use DD.MM.YYYY''"]
      bad good v f
    by simp
qed

text \<open>The claim as stated fails: \<^verbatim>\<open>add_birthday("29.02.2021")\<close> returns normally; the caller
  gets no failure, only a printed line, and the earlier birthday stays.\<close>

theorem add_birthday_invalid_counterexample:
  "add_birthday ''29.02.2021''
     \<lparr>name = ''Bob'', phones = [], birthday = Some \<lparr>year = 1990, month = 5, day = 17\<rparr>\<rparr>
   = Inr (\<lparr>name = ''Bob'', phones = [], birthday = Some \<lparr>year = 1990, month = 5, day = 17\<rparr>\<rparr>,
          [''Invalid date format. Use DD.MM.YYYY''])"
  by code_simp

subsection \<open>The directory\<close>

text \<open>
  Claim C4, as amended. \<^verbatim>\<open>add_record\<close> never fails: it stores the record under its name and
  replaces the record already stored under that name, if there is one; every other entry
  keeps its record.
\<close>

theorem add_record_replaces:
  "find (add_record record book) = (find book)(name record \<mapsto> record)"
  by (rule ext) (simp add: find_def add_record_def update_conv')

text \<open>The claim as stated fails: adding a second record named Bob returns normally and the
  entry of the first Bob is gone.\<close>

theorem add_record_duplicate_counterexample:
  "add_record \<lparr>name = ''Bob'', phones = [''0671112233''], birthday = None\<rparr>
     [(''Bob'', \<lparr>name = ''Bob'', phones = [''0501234567''], birthday = None\<rparr>)]
   = [(''Bob'', \<lparr>name = ''Bob'', phones = [''0671112233''], birthday = None\<rparr>)]"
  by (simp add: add_record_def)

lemma str_contains_sublist: "str_contains s p \<longleftrightarrow> sublist p s"
proof (induction s)
  case Nil
  show ?case by auto
next
  case (Cons c cs)
  have "prefix p (c # cs) \<longleftrightarrow> take (length p) (c # cs) = p"
    by (metis append_eq_conv_conj prefix_def append_take_drop_id)
  with Cons show ?case by (simp add: sublist_Cons_right)
qed

text \<open>
  Claim C8, as amended. \<^verbatim>\<open>search_contact\<close> prints one line for every entry, in the order
  of the directory, whose name or one of whose stored phones contains the pattern as a
  substring when both are put in lower case. When no entry matches it prints nothing and
  raises \<^verbatim>\<open>ValueError\<close> with the message \<^verbatim>\<open>Contact <pattern> not found.\<close>, which the
  decorator \<^verbatim>\<open>input_error\<close> turns into the returned string.
\<close>

theorem search_contact_outcome:
  "search_contact pattern phonebook =
     (let hits = filter
            (\<lambda>(nm, record).
               sublist (lower pattern) (lower nm) \<or>
               (\<exists>phone \<in> set (phones record). sublist (lower pattern) (lower phone)))
            phonebook
      in (map (\<lambda>(nm, record). nm @ '': '' @ join ''; '' (phones record)) hits,
          if hits = [] then Inl (ValueError (''Contact '' @ pattern @ '' not found.''))
          else Inr ()))"
  by (simp add: search_contact_def Let_def str_contains_sublist list_ex_iff)

theorem search_contact_outcome_witness:
  "search_contact ''bO''
     [(''Ann'', \<lparr>name = ''Ann'', phones = [''0501234567''], birthday = None\<rparr>),
      (''Bob'', \<lparr>name = ''Bob'', phones = [''0671112233'', ''0931112233''], birthday = None\<rparr>)]
   = ([''Bob: 0671112233; 0931112233''], Inr ())"
  unfolding search_contact_outcome by code_simp

text \<open>The claim as stated fails: a pattern that matches nothing gives an error, not an
  empty sequence.\<close>

theorem search_contact_not_found_counterexample:
  "search_contact ''zz''
     [(''Bob'', \<lparr>name = ''Bob'', phones = [''0671112233''], birthday = None\<rparr>)]
   = ([], Inl (ValueError ''Contact zz not found.'')) \<and>
   input_error (search_contact ''zz''
     [(''Bob'', \<lparr>name = ''Bob'', phones = [''0671112233''], birthday = None\<rparr>)])
   = ([], Inr (Inl ''Contact zz not found.''))"
  by code_simp

subsection \<open>Persistence\<close>

text \<open>
  Claim C7. Saving a directory and loading the result is to give the same names, phones
  and birthdays. \<^verbatim>\<open>save_phonebook\<close> hands the \<^verbatim>\<open>AddressBook\<close> itself to \<^verbatim>\<open>json.dump\<close>: for
  every directory the call raises \<^verbatim>\<open>TypeError\<close> and leaves the file empty, and
  \<^verbatim>\<open>load_phonebook\<close> on that file raises in its turn.
\<close>

theorem save_phonebook_raises:
  "save_phonebook phonebook filename fs = (fs(filename \<mapsto> Empty_file), Inl TypeError) \<and>
   load_phonebook filename (fst (save_phonebook phonebook filename fs)) =
     Inl (ValueError ''Expecting value: line 1 column 1 (char 0)'')"
  by (simp add: save_phonebook_def json_encode_def load_phonebook_def)

subsection \<open>The birthday scheduler\<close>

text \<open>
  Claim C1. The scheduler is to skip the records without a birthday and to return a
  result for every collection. The method reads \<^verbatim>\<open>record.birthday.value\<close> without a test:
  on a directory whose first record has no birthday it raises \<^verbatim>\<open>AttributeError\<close>, whatever
  the date and the other records are.
\<close>

theorem get_upcoming_birthdays_without_birthday:
  "get_upcoming_birthdays today ((key, r\<lparr>birthday := None\<rparr>) # book) = Inl AttributeError"
  by (simp add: get_upcoming_birthdays_def upcoming_entry_def)

text \<open>
  Where the loop runs through, that is on a directory in which every record has a birthday
  whose month and day exist in today's year, it lists, in the order of the directory, the
  records whose shifted number of days lies between 0 and 7; the returned string names
  the record and its birthday in today's year only.
\<close>

lemma upcoming_birthdays_window:
  assumes "valid_date today"
    and "\<forall>r \<in> set (map snd book). \<exists>b. birthday r = Some b \<and> valid_date (birthday_this_year today b)"
  shows "upcoming_birthdays today (map snd book) [] =
           Inr (map (scheduled_entry today) (filter (in_window today) (map snd book))) \<and>
         get_upcoming_birthdays today book =
           Inr (''Upcoming birthdays: '' @
                join [CHR 0x0A]
                  (map (\<lambda>(nm, bday, congrats_day). nm @ '' on '' @ date_str bday)
                     (map (scheduled_entry today) (filter (in_window today) (map snd book)))))"
  using upcoming_birthdays_scheduled [OF assms, of "[]"]
  by (simp add: get_upcoming_birthdays_def)

text \<open>
  Claim C2. For every record with a birthday and every reference date the scheduler is to
  decide, from the shifted number of days, whether the record is in the result, and to
  give the congratulation date. The method builds the birthday in today's year with the
  \<^verbatim>\<open>date\<close> constructor and no handler: a birthday on 29 February, which \<^verbatim>\<open>Birthday\<close> accepts,
  makes the call raise \<^verbatim>\<open>ValueError\<close> on every date of the year 2023, and no result is
  returned. Where a result is returned it is one string without the congratulation date:
  for a birthday on Saturday 15 June 2024 the date 17 June is computed and dropped.
\<close>

theorem get_upcoming_birthdays_leap_day:
  "Birthday ''29.02.2000'' = Inr \<lparr>year = 2000, month = 2, day = 29\<rparr> \<and>
   upcoming_birthdays \<lparr>year = 2023, month = 2, day = 25\<rparr>
     [\<lparr>name = ''Ann'', phones = [], birthday = Some \<lparr>year = 2000, month = 2, day = 29\<rparr>\<rparr>] []
   = Inl (ValueError ''day is out of range for month'') \<and>
   get_upcoming_birthdays \<lparr>year = 2023, month = 2, day = 25\<rparr>
     [(''Ann'', \<lparr>name = ''Ann'', phones = [], birthday = Some \<lparr>year = 2000, month = 2, day = 29\<rparr>\<rparr>)]
   = Inl (ValueError ''day is out of range for month'') \<and>
   upcoming_birthdays \<lparr>year = 2024, month = 6, day = 10\<rparr>
     [\<lparr>name = ''Ann'', phones = [], birthday = Some \<lparr>year = 1990, month = 6, day = 15\<rparr>\<rparr>] []
   = Inr [(''Ann'', \<lparr>year = 2024, month = 6, day = 15\<rparr>, \<lparr>year = 2024, month = 6, day = 17\<rparr>)] \<and>
   get_upcoming_birthdays \<lparr>year = 2024, month = 6, day = 10\<rparr>
     [(''Ann'', \<lparr>name = ''Ann'', phones = [], birthday = Some \<lparr>year = 1990, month = 6, day = 15\<rparr>\<rparr>)]
   = Inr ''Upcoming birthdays: Ann on 2024-06-15''"
  by code_simp

text \<open>
  Claim C3, as amended. A record whose birthday in today's year lies before today is left
  out of the result, except when that day is a Saturday at most two days back or a Sunday
  one day back: the weekend shift then brings the count to 0 or more and the record is
  listed. No entry carries a birthday of another year than today's: nothing wraps to next
  year.
\<close>

theorem upcoming_birthdays_past:
  assumes "valid_date today"
    and "\<forall>r \<in> set rs. \<exists>b. birthday r = Some b \<and> valid_date (birthday_this_year today b)"
    and "r \<in> set rs" and "birthday r = Some b"
    and "toordinal (birthday_this_year today b) < toordinal today"
  shows "\<exists>entries. upcoming_birthdays today rs [] = Inr entries \<and>
           ((\<exists>c. (name r, birthday_this_year today b, c) \<in> set entries) \<longleftrightarrow>
              (weekday (birthday_this_year today b) = 5 \<and>
                 toordinal today - toordinal (birthday_this_year today b) \<le> 2) \<or>
              (weekday (birthday_this_year today b) = 6 \<and>
                 toordinal today - toordinal (birthday_this_year today b) = 1)) \<and>
           (\<forall>e \<in> set entries. year (fst (snd e)) = year today)"
proof -
  let ?entries = "map (scheduled_entry today) (filter (in_window today) rs)"
  have res: "upcoming_birthdays today rs [] = Inr ?entries"
    using upcoming_birthdays_scheduled [OF assms(1,2), of "[]"] by simp
  have "(\<exists>c. (name r, birthday_this_year today b, c) \<in> set ?entries) \<longleftrightarrow> in_window today r"
  proof
    assume "\<exists>c. (name r, birthday_this_year today b, c) \<in> set ?entries"
    then obtain c r' where "r' \<in> set rs" "in_window today r'"
      "scheduled_entry today r' = (name r, birthday_this_year today b, c)"
      by (auto simp: eq_commute [of "(name r, birthday_this_year today b, _)"])
    from scheduled_entry_in_window [OF assms(4) this] show "in_window today r" .
  next
    assume "in_window today r"
    with assms(3) have "scheduled_entry today r \<in> set ?entries" by simp
    with assms(4) show "\<exists>c. (name r, birthday_this_year today b, c) \<in> set ?entries"
      by (auto simp: scheduled_entry_def Let_def)
  qed
  moreover have "\<forall>e \<in> set ?entries. year (fst (snd e)) = year today"
    by (auto simp: scheduled_entry_def birthday_this_year_def Let_def)
  ultimately show ?thesis
    using res in_window_past [OF assms(4,5)] by simp
qed

theorem upcoming_birthdays_past_witness:
  "\<exists>entries.
     upcoming_birthdays \<lparr>year = 2024, month = 12, day = 30\<rparr>
       [\<lparr>name = ''Ann'', phones = [], birthday = Some \<lparr>year = 1990, month = 1, day = 2\<rparr>\<rparr>] []
       = Inr entries \<and>
     \<not> (\<exists>c. (''Ann'', \<lparr>year = 2024, month = 1, day = 2\<rparr>, c) \<in> set entries)"
proof -
  let ?today = "\<lparr>year = 2024, month = 12, day = 30\<rparr>"
  let ?b = "\<lparr>year = 1990, month = 1, day = 2\<rparr>"
  let ?ann = "\<lparr>name = ''Ann'', phones = [], birthday = Some ?b\<rparr>"
  have t: "valid_date ?today" by code_simp
  have bty: "birthday_this_year ?today ?b = \<lparr>year = 2024, month = 1, day = 2\<rparr>"
    by (simp add: birthday_this_year_def)
  have v: "valid_date \<lparr>year = 2024, month = 1, day = 2\<rparr>" by code_simp
  have all: "\<forall>r \<in> set [?ann]. \<exists>b. birthday r = Some b \<and> valid_date (birthday_this_year ?today b)"
    using v bty by simp
  have past: "toordinal (birthday_this_year ?today ?b) < toordinal ?today"
    unfolding bty by code_simp
  have w: "weekday \<lparr>year = 2024, month = 1, day = 2\<rparr> = 1" by code_simp
  have "?ann \<in> set [?ann]" "birthday ?ann = Some ?b" by simp_all
  from upcoming_birthdays_past [OF t all this past] show ?thesis
    unfolding bty w by (simp del: upcoming_birthdays.simps) blast
qed

text \<open>The claim as stated fails: on Monday 10 June 2024 the birthday of Sunday 9 June
  has passed, and the record is listed, to be congratulated today.\<close>

theorem upcoming_birthdays_past_counterexample:
  "upcoming_birthdays \<lparr>year = 2024, month = 6, day = 10\<rparr>
     [\<lparr>name = ''Ann'', phones = [], birthday = Some \<lparr>year = 1990, month = 6, day = 9\<rparr>\<rparr>] []
   = Inr [(''Ann'', \<lparr>year = 2024, month = 6, day = 9\<rparr>, \<lparr>year = 2024, month = 6, day = 10\<rparr>)]"
  by code_simp

end
